theory Spec2Isabelle
  imports Main "HOL-Library.Char_ord" "HOL-Library.List_Lexorder" "HOL-Library.Finite_Map"
begin

section \<open>JavaScript values used by \<open>activate\<close>\<close>

text \<open>
  \<open>extension.ts\<close> compares version components with the operators \<open>>\<close> and
  \<open>===\<close> on values of type \<open>string | undefined\<close> (an array read out of range is
  \<open>undefined\<close>). Such a value is a \<open>string option\<close> here, \<open>None\<close> being
  \<open>undefined\<close>. Version strings are ASCII, so a \<open>char\<close> stands for one UTF-16 code
  unit and \<open>of_char\<close> gives its code.
\<close>

text \<open>
  \<open>a < b\<close> on two strings: lexicographic on code units, a proper prefix being smaller.
\<close>

fun js_str_lt :: "string \<Rightarrow> string \<Rightarrow> bool" where
  "js_str_lt [] [] = False"
| "js_str_lt [] (y # ys) = True"
| "js_str_lt (x # xs) [] = False"
| "js_str_lt (x # xs) (y # ys) =
     (if (of_char x :: nat) < of_char y then True
      else if (of_char y :: nat) < of_char x then False
      else js_str_lt xs ys)"

text \<open>
  \<open>a > b\<close>: two strings are compared as strings; when either side is \<open>undefined\<close>
  both are converted to numbers, \<open>undefined\<close> becomes NaN and the comparison is false.
\<close>

fun js_gt :: "string option \<Rightarrow> string option \<Rightarrow> bool" where
  "js_gt (Some a) (Some b) = js_str_lt b a"
| "js_gt _ _ = False"

text \<open>\<open>s.split('.')\<close>: the pieces between the dots; never an empty array.\<close>

fun js_split :: "string \<Rightarrow> string list" where
  "js_split [] = [[]]"
| "js_split (c # cs) =
     (if c = CHR ''.'' then [] # js_split cs
      else (case js_split cs of
              [] \<Rightarrow> [[c]]
            | w # ws \<Rightarrow> (c # w) # ws))"

text \<open>\<open>arr[i]\<close>: \<open>undefined\<close> out of range.\<close>

fun js_index :: "'a list \<Rightarrow> nat \<Rightarrow> 'a option" where
  "js_index [] i = None"
| "js_index (x # xs) 0 = Some x"
| "js_index (x # xs) (Suc i) = js_index xs i"

section \<open>The host and the modules outside \<open>extension.ts\<close>\<close>

text \<open>The error taxonomy of the specification; \<open>HostError\<close> is any other exception.\<close>

datatype error =
    NotLoadedError
  | MalformedDocumentError
  | NetworkError
  | DuplicateProfileError
  | NotFoundError
  | ActiveProfileError
  | InvalidScheduleError
  | HostError string

text \<open>The thirteen imported command handlers (lines 3 to 15).\<close>

datatype handler =
    createProfile
  | deleteProfile
  | download
  | listMissingExtensions
  | openProfileDirectory
  | openProfileSettings
  | openRepositoryDirectory
  | openSettings
  | reset
  | review
  | switchProfile
  | upload
  | viewDifferences

text \<open>The identifier under which each handler is imported.\<close>

fun handler_name :: "handler \<Rightarrow> string" where
  "handler_name createProfile = ''createProfile''"
| "handler_name deleteProfile = ''deleteProfile''"
| "handler_name download = ''download''"
| "handler_name listMissingExtensions = ''listMissingExtensions''"
| "handler_name openProfileDirectory = ''openProfileDirectory''"
| "handler_name openProfileSettings = ''openProfileSettings''"
| "handler_name openRepositoryDirectory = ''openRepositoryDirectory''"
| "handler_name openSettings = ''openSettings''"
| "handler_name reset = ''reset''"
| "handler_name review = ''review''"
| "handler_name switchProfile = ''switchProfile''"
| "handler_name upload = ''upload''"
| "handler_name viewDifferences = ''viewDifferences''"

text \<open>
  The information message of \<open>showWhatsNewMessage(version)\<close>; its text is fixed but
  for the version, so the message is recorded by the version it announces.
\<close>

datatype message = WhatsNew string

text \<open>\<open>type CommandItem\<close> (lines 25 to 30).\<close>

record CommandItem =
  label :: string
  command :: string
  description :: "string option"
  icon :: "string option"

text \<open>The one field of the loaded settings that \<open>activate\<close> reads.\<close>

record settings =
  settingsUri :: string

datatype disposable =
    CommandRegistration string
  | TreeDataProviderRegistration string

text \<open>
  Modelled from the spec: the throttled delayer of \<open>utils/async.js\<close>, which is not
  among the sources. The specification describes the debounce as an explicit timer and
  a pending trigger with a deterministic flush: a trigger stores the task and (re)arms
  the timer \<open>defaultDelay\<close> milliseconds ahead; when the timer expires the pending task
  runs once. Every task handed to the delayer by \<open>activate\<close> is the same closure, so the
  pending task is represented by the armed timer: \<open>timeout = Some d\<close> is a pending
  trigger due at the time \<open>d\<close> (milliseconds, simulated).
\<close>

record delayer =
  defaultDelay :: nat
  timeout :: "nat option"

text \<open>
  What the host and the absent modules answer during one run: the version of
  \<open>package.json\<close>, the value of the configuration option \<open>notification\<close>, what
  \<open>Settings.load\<close> finds in storage or fails with, the outcome of \<open>setupCrons()\<close>,
  and the outcome of the \<open>k\<close>-th call of \<open>RepositoryFactory.reload()\<close>.
\<close>

record env =
  pkg_version :: string
  config_notification :: "string option"
  settings_storage :: "error + settings"
  crons_result :: "error option"
  reload_result :: "nat \<Rightarrow> error option"

text \<open>
  Everything \<open>activate\<close> and its callbacks read or change: the extension context
  (global state, keys for synchronisation, subscriptions), what the host has
  registered, the \<open>Settings\<close> singleton, the delayer of the file watcher, and counters
  and logs of the calls into the absent modules.
\<close>

record state =
  globalState :: "string \<Rightarrow> string option"
  keysForSync :: "string list"
  shown :: "message list"
  settings_singleton :: "settings option"
  commands :: "(string \<times> handler) list"
  treeDataProviders :: "(string \<times> CommandItem list) list"
  watched :: "(string \<times> string) list"
  changeHandler :: bool
  fileChangesDelayer :: delayer
  cronSetups :: nat
  configListener :: bool
  subscriptions :: "disposable list"
  reloads :: nat
  errorNotifications :: "error list"
  unhandledRejections :: "error list"

section \<open>The version check of \<open>activate\<close> (lines 112 to 140)\<close>

definition VERSION_KEY :: string where
  "VERSION_KEY = ''version''"

text \<open>\<open>void showWhatsNewMessage(currentVersion)\<close>: the message is put on screen.\<close>

definition showWhatsNewMessage :: "string \<Rightarrow> state \<Rightarrow> state" where
  "showWhatsNewMessage version st = st\<lparr>shown := shown st @ [WhatsNew version]\<rparr>"

text \<open>The first two components of a version, as the code reads them.\<close>

definition major_of :: "string \<Rightarrow> string option" where
  "major_of v = js_index (js_split v) 0"

definition minor_of :: "string \<Rightarrow> string option" where
  "minor_of v = js_index (js_split v) 1"

text \<open>
  Lines 112 to 140. Nothing here can throw: \<open>split\<close> is only called on
  \<open>previousVersion\<close> in the branches where it is a string.
\<close>

definition check_version :: "env \<Rightarrow> state \<Rightarrow> state" where
  "check_version e st0 =
     (let st1 = st0\<lparr>keysForSync := [VERSION_KEY]\<rparr>;
          previousVersion = globalState st1 VERSION_KEY;
          currentVersion = pkg_version e
      in if previousVersion = None \<or> Some currentVersion \<noteq> previousVersion then
           (let st2 = st1\<lparr>globalState := (globalState st1)(VERSION_KEY \<mapsto> currentVersion)\<rparr>;
                notification = config_notification e
            in case previousVersion of
                 None \<Rightarrow> st2
               | Some prev \<Rightarrow>
                   if notification = Some ''major'' then
                     (if js_gt (major_of currentVersion) (major_of prev)
                      then showWhatsNewMessage currentVersion st2 else st2)
                   else if notification = Some ''minor'' then
                     (if js_gt (major_of currentVersion) (major_of prev)
                         \<or> (major_of currentVersion = major_of prev
                             \<and> js_gt (minor_of currentVersion) (minor_of prev))
                      then showWhatsNewMessage currentVersion st2 else st2)
                   else if notification \<noteq> Some ''none'' then
                     showWhatsNewMessage currentVersion st2
                   else st2)
         else st1)"

section \<open>The commands view (lines 33 to 81)\<close>

definition item :: "string \<Rightarrow> string \<Rightarrow> string \<Rightarrow> CommandItem" where
  "item l c i = \<lparr>label = l, command = c, description = Some l, icon = Some i\<rparr>"

text \<open>
  The field \<open>commands\<close> of \<open>CommandsViewProvider\<close>; in every entry the description
  repeats the label.
\<close>

definition provider_commands :: "CommandItem list" where
  "provider_commands =
     [item ''Create a new profile'' ''syncSettings.createProfile'' ''add'',
      item ''Delete a profile'' ''syncSettings.deleteProfile'' ''trash'',
      item ''Download (repository -> user)'' ''syncSettings.download'' ''cloud-download'',
      item ''List the missing extensions'' ''syncSettings.listMissingExtensions'' ''extensions'',
      item ''Reveal the profile in the file explorer'' ''syncSettings.openProfileDirectory''
        ''folder-opened'',
      item ''Open the profile settings'' ''syncSettings.openProfileSettings'' ''gear'',
      item ''Reveal the repository in the file explorer'' ''syncSettings.openRepositoryDirectory''
        ''repo'',
      item ''Open the repository settings'' ''syncSettings.openSettings'' ''settings-gear'',
      item ''Remove all settings and extensions'' ''syncSettings.reset'' ''clear-all'',
      item ''Prompt if a difference between actual and saved settings is found''
        ''syncSettings.review'' ''eye'',
      item ''Switch to profile'' ''syncSettings.switchProfile'' ''arrow-swap'',
      item ''Upload (user -> repository)'' ''syncSettings.upload'' ''cloud-upload'',
      item ''View differences between actual and saved settings''
        ''syncSettings.viewDifferences'' ''diff'']"

text \<open>\<open>getChildren()\<close>.\<close>

definition getChildren :: "CommandItem list" where
  "getChildren = provider_commands"

text \<open>
  \<open>getTreeItem(element)\<close>, as the command identifier, the title and the icon of the
  tree item it builds.
\<close>

definition getTreeItem :: "CommandItem \<Rightarrow> string \<times> string \<times> string" where
  "getTreeItem element =
     (command element, label element,
      (case icon element of None \<Rightarrow> ''play'' | Some i \<Rightarrow> i))"

section \<open>The rest of \<open>activate\<close> (lines 142 to 191)\<close>

text \<open>
  Modelled from the spec: \<open>Settings.load\<close> of \<open>settings.js\<close>, which is not among the
  sources. It reads the configuration from storage into the singleton, or fails and
  leaves the singleton as it was.
\<close>

definition Settings_load :: "env \<Rightarrow> state \<Rightarrow> error option \<times> state" where
  "Settings_load e st =
     (case settings_storage e of
        Inl err \<Rightarrow> (Some err, st)
      | Inr s \<Rightarrow> (None, st\<lparr>settings_singleton := Some s\<rparr>))"

text \<open>
  Modelled from the spec: \<open>Settings.get\<close> of \<open>settings.js\<close>, which is not among the
  sources. It returns the singleton, or fails with \<open>NotLoadedError\<close> when nothing has
  been loaded.
\<close>

definition Settings_get :: "state \<Rightarrow> error + settings" where
  "Settings_get st =
     (case settings_singleton st of
        None \<Rightarrow> Inl NotLoadedError
      | Some s \<Rightarrow> Inr s)"

text \<open>
  \<open>vscode.commands.registerCommand(name, handler)\<close>: the host binds the handler to the
  name and returns the disposable of the binding.
\<close>

definition registerCommand :: "string \<Rightarrow> handler \<Rightarrow> state \<Rightarrow> disposable \<times> state" where
  "registerCommand name h st =
     (CommandRegistration name, st\<lparr>commands := commands st @ [(name, h)]\<rparr>)"

text \<open>The thirteen calls of lines 147 to 159, in their order.\<close>

definition command_table :: "(string \<times> handler) list" where
  "command_table =
     [(''syncSettings.createProfile'', createProfile),
      (''syncSettings.deleteProfile'', deleteProfile),
      (''syncSettings.download'', download),
      (''syncSettings.listMissingExtensions'', listMissingExtensions),
      (''syncSettings.openProfileDirectory'', openProfileDirectory),
      (''syncSettings.openProfileSettings'', openProfileSettings),
      (''syncSettings.openRepositoryDirectory'', openRepositoryDirectory),
      (''syncSettings.openSettings'', openSettings),
      (''syncSettings.reset'', reset),
      (''syncSettings.review'', review),
      (''syncSettings.switchProfile'', switchProfile),
      (''syncSettings.upload'', upload),
      (''syncSettings.viewDifferences'', viewDifferences)]"

text \<open>
  \<open>disposables.push(registerCommand(...), ...)\<close>: the calls run left to right, each
  result is appended to the local array \<open>disposables\<close>.
\<close>

fun register_commands ::
  "(string \<times> handler) list \<Rightarrow> disposable list \<times> state \<Rightarrow> disposable list \<times> state" where
  "register_commands [] (ds, st) = (ds, st)"
| "register_commands ((name, h) # rest) (ds, st) =
     (case registerCommand name h st of
        (d, st') \<Rightarrow> register_commands rest (ds @ [d], st'))"

text \<open>\<open>vscode.window.registerTreeDataProvider(viewId, provider)\<close>.\<close>

definition registerTreeDataProvider ::
  "string \<Rightarrow> CommandItem list \<Rightarrow> state \<Rightarrow> disposable \<times> state" where
  "registerTreeDataProvider viewId children st =
     (TreeDataProviderRegistration viewId,
      st\<lparr>treeDataProviders := treeDataProviders st @ [(viewId, children)]\<rparr>)"

text \<open>
  Modelled from the spec: \<open>setupCrons()\<close> of \<open>crons.js\<close>, which is not among the
  sources. It re-arms the schedules or fails (with \<open>InvalidScheduleError\<close> on an invalid
  expression); only the fact of the call and its outcome matter to \<open>activate\<close>.
\<close>

definition setupCrons :: "env \<Rightarrow> state \<Rightarrow> error option \<times> state" where
  "setupCrons e st = (crons_result e, st\<lparr>cronSetups := Suc (cronSetups st)\<rparr>)"

text \<open>
  Lines 185 to 189, the listener of configuration changes. The event is given by its
  method \<open>affectsConfiguration\<close>.
\<close>

definition onDidChangeConfiguration ::
  "env \<Rightarrow> (string \<Rightarrow> bool) \<Rightarrow> state \<Rightarrow> error option \<times> state" where
  "onDidChangeConfiguration e affectsConfiguration st =
     (if affectsConfiguration ''syncSettings.crons'' then setupCrons e st
      else (None, st))"

text \<open>
  \<open>activate\<close>, lines 111 to 192, in two parts. The result is the exception the
  returned promise is rejected with, if any, and the state at that point: an exception
  leaves every effect made before it in place.

  The first part is lines 112 to 166: the version check, \<open>await Settings.load(context)\<close>,
  the thirteen registrations and the commands view. It returns the local array
  \<open>disposables\<close> as well.
\<close>

definition activate_setup :: "env \<Rightarrow> state \<Rightarrow> error option \<times> disposable list \<times> state" where
  "activate_setup e st0 =
     (let st1 = check_version e st0 in
      case Settings_load e st1 of
        (Some err, st2) \<Rightarrow> (Some err, [], st2)
      | (None, st2) \<Rightarrow>
          (case register_commands command_table ([], st2) of
             (ds, st3) \<Rightarrow>
               (case registerTreeDataProvider ''syncSettingsCommands'' getChildren st3 of
                  (d, st4) \<Rightarrow> (None, ds @ [d], st4))))"

text \<open>
  The second part is lines 168 to 191: \<open>Settings.get()\<close>, the delayer, the watcher and
  its handler, \<open>await setupCrons()\<close>, the configuration listener, and the disposables
  pushed to \<open>context.subscriptions\<close>. The watcher is recorded by the settings URI whose
  directory it watches and by its file pattern.
\<close>

definition activate :: "env \<Rightarrow> state \<Rightarrow> error option \<times> state" where
  "activate e st0 =
     (case activate_setup e st0 of
        (Some err, disposables, st4) \<Rightarrow> (Some err, st4)
      | (None, disposables, st4) \<Rightarrow>
          (case Settings_get st4 of
             Inl err \<Rightarrow> (Some err, st4)
           | Inr s \<Rightarrow>
               (let st5 = st4\<lparr>fileChangesDelayer := \<lparr>defaultDelay = 200, timeout = None\<rparr>\<rparr>;
                    st6 = st5\<lparr>watched := watched st5 @ [(settingsUri s, ''settings.yml'')]\<rparr>;
                    st7 = st6\<lparr>changeHandler := True\<rparr>
                in case setupCrons e st7 of
                     (Some err, st8) \<Rightarrow> (Some err, st8)
                   | (None, st8) \<Rightarrow>
                       (let st9 = st8\<lparr>configListener := True\<rparr>
                        in (None, st9\<lparr>subscriptions := subscriptions st9 @ disposables\<rparr>)))))"

section \<open>The callbacks after activation\<close>

text \<open>
  Modelled from the spec: \<open>RepositoryFactory.reload()\<close> of \<open>repository-factory.js\<close>,
  which is not among the sources. A reload is counted and succeeds or fails as the
  environment says.
\<close>

definition RepositoryFactory_reload :: "env \<Rightarrow> state \<Rightarrow> error option \<times> state" where
  "RepositoryFactory_reload e st = (reload_result e (reloads st), st\<lparr>reloads := Suc (reloads st)\<rparr>)"

text \<open>
  Modelled from the spec: \<open>Logger.error\<close> of \<open>utils/logger.js\<close>, which is not among
  the sources. An error handed to it is surfaced to the user as a visible error
  notification.
\<close>

definition Logger_error :: "error \<Rightarrow> state \<Rightarrow> state" where
  "Logger_error err st = st\<lparr>errorNotifications := errorNotifications st @ [err]\<rparr>"

text \<open>The task of lines 173 to 180: \<open>try { await reload() } catch (error) { Logger.error(error) }\<close>.\<close>

definition reload_task :: "env \<Rightarrow> state \<Rightarrow> error option \<times> state" where
  "reload_task e st =
     (case RepositoryFactory_reload e st of
        (None, st') \<Rightarrow> (None, st')
      | (Some err, st') \<Rightarrow> (None, Logger_error err st'))"

text \<open>
  Modelled from the spec: \<open>trigger\<close> of the delayer (\<open>utils/async.js\<close>, not among the
  sources) stores the task and re-arms the timer a full delay ahead.
\<close>

definition trigger :: "nat \<Rightarrow> delayer \<Rightarrow> delayer" where
  "trigger now d = d\<lparr>timeout := Some (now + defaultDelay d)\<rparr>"

text \<open>
  Modelled from the spec: the timer of the delayer going off. At the time \<open>now\<close> a
  pending trigger that is due runs the task once and leaves the delayer idle. The
  promise of \<open>trigger\<close> is discarded with \<open>void\<close>, so a task that threw would end as
  an unhandled rejection.
\<close>

definition expire :: "env \<Rightarrow> nat \<Rightarrow> state \<Rightarrow> state" where
  "expire e now st =
     (case timeout (fileChangesDelayer st) of
        None \<Rightarrow> st
      | Some due \<Rightarrow>
          if due \<le> now then
            (case reload_task e (st\<lparr>fileChangesDelayer := (fileChangesDelayer st)\<lparr>timeout := None\<rparr>\<rparr>) of
               (None, st') \<Rightarrow> st'
             | (Some err, st') \<Rightarrow> st'\<lparr>unhandledRejections := unhandledRejections st' @ [err]\<rparr>)
          else st)"

text \<open>Lines 172 to 181, the handler of \<open>watcher.onDidChange\<close>, called at the time \<open>now\<close>.\<close>

definition onDidChange :: "nat \<Rightarrow> state \<Rightarrow> state" where
  "onDidChange now st = st\<lparr>fileChangesDelayer := trigger now (fileChangesDelayer st)\<rparr>"

text \<open>
  The host delivers a change of \<open>settings.yml\<close> at the time \<open>now\<close>: a timer due by then
  has gone off first, and the handler runs if one is installed.
\<close>

definition file_changed :: "env \<Rightarrow> nat \<Rightarrow> state \<Rightarrow> state" where
  "file_changed e now st =
     (let st' = expire e now st
      in if changeHandler st' then onDidChange now st' else st')"

text \<open>A sequence of changes, given by their times in the order of delivery.\<close>

fun file_changes :: "env \<Rightarrow> nat list \<Rightarrow> state \<Rightarrow> state" where
  "file_changes e [] st = st"
| "file_changes e (t # ts) st = file_changes e ts (file_changed e t st)"

text \<open>
  The host delivers a configuration change: the listener runs if one is installed; its
  promise is not awaited by anyone, so an exception ends as an unhandled rejection.
\<close>

definition configuration_changed :: "env \<Rightarrow> (string \<Rightarrow> bool) \<Rightarrow> state \<Rightarrow> state" where
  "configuration_changed e affectsConfiguration st =
     (if configListener st then
        (case onDidChangeConfiguration e affectsConfiguration st of
           (None, st') \<Rightarrow> st'
         | (Some err, st') \<Rightarrow> st'\<lparr>unhandledRejections := unhandledRejections st' @ [err]\<rparr>)
      else st)"

text \<open>A sequence of configuration changes, in the order of delivery.\<close>

fun configuration_changes :: "env \<Rightarrow> (string \<Rightarrow> bool) list \<Rightarrow> state \<Rightarrow> state" where
  "configuration_changes e [] st = st"
| "configuration_changes e (ev # evs) st =
     configuration_changes e evs (configuration_changed e ev st)"

section \<open>The numeric reading of the version check\<close>

text \<open>
  The notification levels speak of a version component that increased. Read as
  numbers, a component is a non-empty string of decimal digits and increases when its
  number does. These definitions follow that reading, to be compared with the
  comparisons of \<open>check_version\<close>.
\<close>

definition digit_of :: "char \<Rightarrow> nat option" where
  "digit_of c =
     (let n = (of_char c :: nat) in if 48 \<le> n \<and> n \<le> 57 then Some (n - 48) else None)"

fun digits_acc :: "nat \<Rightarrow> string \<Rightarrow> nat option" where
  "digits_acc acc [] = Some acc"
| "digits_acc acc (c # cs) =
     (case digit_of c of None \<Rightarrow> None | Some d \<Rightarrow> digits_acc (10 * acc + d) cs)"

definition component_number :: "string option \<Rightarrow> nat option" where
  "component_number x =
     (case x of None \<Rightarrow> None | Some [] \<Rightarrow> None | Some (c # cs) \<Rightarrow> digits_acc 0 (c # cs))"

definition increased :: "string option \<Rightarrow> string option \<Rightarrow> bool" where
  "increased cur prev =
     (case (component_number cur, component_number prev) of
        (Some a, Some b) \<Rightarrow> b < a
      | _ \<Rightarrow> False)"

text \<open>
  Whether the message is due for a stored previous version that differs from the
  current one, in the numeric reading: never for \<open>none\<close>, for \<open>major\<close> when the major
  component increased, for \<open>minor\<close> when the major component increased or is equal and
  the minor component increased, always otherwise.
\<close>

definition whats_new_expected :: "string \<Rightarrow> string \<Rightarrow> string option \<Rightarrow> bool" where
  "whats_new_expected prev cur notification =
     (if notification = Some ''none'' then False
      else if notification = Some ''major'' then increased (major_of cur) (major_of prev)
      else if notification = Some ''minor'' then
        increased (major_of cur) (major_of prev)
        \<or> (component_number (major_of cur) = component_number (major_of prev)
            \<and> increased (minor_of cur) (minor_of prev))
      else True)"

text \<open>The command names of the external interface, in the order it lists them.\<close>

definition command_names :: "string list" where
  "command_names =
     [''createProfile'', ''deleteProfile'', ''download'', ''upload'', ''review'', ''reset'',
      ''switchProfile'', ''listMissingExtensions'', ''viewDifferences'', ''openProfileDirectory'',
      ''openProfileSettings'', ''openRepositoryDirectory'', ''openSettings'']"

section \<open>The diff engine\<close>

text \<open>
  No source file holds the diff engine; all of this section is modelled from the
  specification. A change record has a path, a kind and the old and the new value.
\<close>

datatype kind = added | removed | modified

record 'v change =
  path :: string
  kind :: kind
  old_value :: "'v option"
  new_value :: "'v option"

text \<open>
  A snapshot is a timestamped capture of the settings documents and of the extension
  list: the time of capture, the parsed documents as the values at their document
  paths, and the installed extensions as the version of each identifier. The record
  holds the documents parsed, so every value of the type is a well-formed snapshot; an
  input that cannot be parsed is none.
\<close>

record 'v snapshot =
  captured_at :: nat
  documents :: "(string, 'v) fmap"
  extension_list :: "(string, string) fmap"

text \<open>
  A patch is the ordered change records of the documents and those of the extension
  list, whose values are versions.
\<close>

record 'v patch =
  document_changes :: "'v change list"
  extension_changes :: "string change list"

text \<open>
  Modelled from the spec: the comparison at one path. A path only in the base is
  removed, a path only in the target is added, a path in both is modified when the
  values are compared and differ. The values are compared for the documents
  (structural equality), and for the extension list only under version tracking:
  without it extensions are compared by identifier, ignoring the version.
\<close>

fun change_at :: "bool \<Rightarrow> string \<Rightarrow> 'v option \<Rightarrow> 'v option \<Rightarrow> 'v change option" where
  "change_at cmp p None None = None"
| "change_at cmp p None (Some w) =
     Some \<lparr>path = p, kind = added, old_value = None, new_value = Some w\<rparr>"
| "change_at cmp p (Some v) None =
     Some \<lparr>path = p, kind = removed, old_value = Some v, new_value = None\<rparr>"
| "change_at cmp p (Some v) (Some w) =
     (if cmp \<and> v \<noteq> w
      then Some \<lparr>path = p, kind = modified, old_value = Some v, new_value = Some w\<rparr>
      else None)"

text \<open>
  Modelled from the spec: the key-by-key comparison of \<open>diff\<close>, over the paths of
  either side in lexicographic order, which is the order of the records.
\<close>

definition diff_entries :: "bool \<Rightarrow> (string, 'v) fmap \<Rightarrow> (string, 'v) fmap \<Rightarrow> 'v change list" where
  "diff_entries cmp b t =
     List.map_filter (\<lambda>p. change_at cmp p (fmlookup b p) (fmlookup t p))
       (sorted_list_of_fset (fmdom b |\<union>| fmdom t))"

text \<open>
  Modelled from the spec: the application of one change record. The record must fit
  the entries it meets (an added path is absent, a removed or modified path is present
  with the old value); \<open>None\<close> when it does not.
\<close>

definition apply_change :: "'v change \<Rightarrow> (string, 'v) fmap \<Rightarrow> (string, 'v) fmap option" where
  "apply_change c m =
     (case (kind c, old_value c, new_value c) of
        (added, None, Some w) \<Rightarrow>
          if fmlookup m (path c) = None then Some (fmupd (path c) w m) else None
      | (removed, Some v, None) \<Rightarrow>
          if fmlookup m (path c) = Some v then Some (fmdrop (path c) m) else None
      | (modified, Some v, Some w) \<Rightarrow>
          if fmlookup m (path c) = Some v then Some (fmupd (path c) w m) else None
      | _ \<Rightarrow> None)"

text \<open>Modelled from the spec: the records of a patch applied in their order.\<close>

fun apply_changes :: "'v change list \<Rightarrow> (string, 'v) fmap \<Rightarrow> (string, 'v) fmap option" where
  "apply_changes [] m = Some m"
| "apply_changes (c # cs) m =
     (case apply_change c m of None \<Rightarrow> None | Some m' \<Rightarrow> apply_changes cs m')"

text \<open>
  Modelled from the spec: \<open>diff(base, target)\<close>, key by key on the documents and as
  the set difference by identifier on the extension list, the versions being compared
  only when the configuration opts into version tracking.
\<close>

definition diff :: "bool \<Rightarrow> 'v snapshot \<Rightarrow> 'v snapshot \<Rightarrow> 'v patch" where
  "diff version_tracking base target =
     \<lparr>document_changes = diff_entries True (documents base) (documents target),
      extension_changes =
        diff_entries version_tracking (extension_list base) (extension_list target)\<rparr>"

text \<open>
  Modelled from the spec: \<open>apply(base, patch)\<close>. Either all records apply, or the base
  is returned unchanged. A patch holds change records only, so the capture time of the
  result is not the target's; it stays the base's, as it must when the patch is empty
  and the input is returned unchanged.
\<close>

definition apply_patch :: "'v snapshot \<Rightarrow> 'v patch \<Rightarrow> 'v snapshot" where
  "apply_patch base p =
     (case apply_changes (document_changes p) (documents base) of
        None \<Rightarrow> base
      | Some ds \<Rightarrow>
          (case apply_changes (extension_changes p) (extension_list base) of
             None \<Rightarrow> base
           | Some xs \<Rightarrow> base\<lparr>documents := ds, extension_list := xs\<rparr>))"

text \<open>
  What a path holds after the patch of a comparison: the target's entry, but for a
  path in both whose values were not compared, which keeps the base's.
\<close>

fun merged :: "bool \<Rightarrow> 'v option \<Rightarrow> 'v option \<Rightarrow> 'v option" where
  "merged cmp (Some v) (Some w) = (if cmp then Some w else Some v)"
| "merged cmp b t = t"

section \<open>Example inputs\<close>

text \<open>A host in which nothing has happened yet.\<close>

definition fresh :: state where
  "fresh =
     \<lparr>globalState = Map.empty, keysForSync = [], shown = [], settings_singleton = None,
      commands = [], treeDataProviders = [], watched = [], changeHandler = False,
      fileChangesDelayer = \<lparr>defaultDelay = 0, timeout = None\<rparr>, cronSetups = 0,
      configListener = False, subscriptions = [], reloads = 0, errorNotifications = [],
      unhandledRejections = []\<rparr>"

text \<open>A reload that always succeeds, and one that always fails.\<close>

definition never_fails :: "nat \<Rightarrow> error option" where
  "never_fails k = None"

definition reload_fails :: "nat \<Rightarrow> error option" where
  "reload_fails k = Some NetworkError"

text \<open>An environment in which everything succeeds, and two in which one call fails.\<close>

definition env_example :: env where
  "env_example =
     \<lparr>pkg_version = ''0.10.0'', config_notification = Some ''minor'',
      settings_storage = Inr \<lparr>settingsUri = ''/home/user/repository/settings.yml''\<rparr>,
      crons_result = None, reload_result = never_fails\<rparr>"

definition env_crons_fail :: env where
  "env_crons_fail = env_example\<lparr>crons_result := Some InvalidScheduleError\<rparr>"

definition env_reload_fails :: env where
  "env_reload_fails = env_example\<lparr>reload_result := reload_fails\<rparr>"

text \<open>
  Snapshots: a base and a target that differ in documents, extensions and versions;
  two captures at the same time that differ in the version of one extension only; and
  a later capture of the same content.
\<close>

definition base_example :: "string snapshot" where
  "base_example =
     \<lparr>captured_at = 1,
      documents = fmupd ''theme'' ''dark'' fmempty,
      extension_list = fmupd ''a.b'' ''1.0.0'' (fmupd ''c.d'' ''1.0.0'' fmempty)\<rparr>"

definition target_example :: "string snapshot" where
  "target_example =
     \<lparr>captured_at = 2,
      documents = fmupd ''font'' ''mono'' (fmupd ''theme'' ''light'' fmempty),
      extension_list = fmupd ''c.d'' ''2.0.0'' (fmupd ''e.f'' ''1.0.0'' fmempty)\<rparr>"

definition installed_old :: "string snapshot" where
  "installed_old =
     \<lparr>captured_at = 1,
      documents = fmupd ''theme'' ''dark'' fmempty,
      extension_list = fmupd ''c.d'' ''1.0.0'' fmempty\<rparr>"

definition installed_new :: "string snapshot" where
  "installed_new = installed_old\<lparr>extension_list := fmupd ''c.d'' ''2.0.0'' fmempty\<rparr>"

definition captured_later :: "string snapshot" where
  "captured_later = installed_old\<lparr>captured_at := 2\<rparr>"

section \<open>What \<open>activate\<close> does, case by case\<close>

lemma register_commands_eq:
  "register_commands t (ds, st) =
     (ds @ map (\<lambda>(n, h). CommandRegistration n) t, st\<lparr>commands := commands st @ t\<rparr>)"
  by (induction t arbitrary: ds st) (auto simp: registerCommand_def)

lemma activate_setup_eq:
  "activate_setup e st =
     (case settings_storage e of
        Inl err \<Rightarrow> (Some err, [], check_version e st)
      | Inr s \<Rightarrow>
          (None,
           map (\<lambda>(n, h). CommandRegistration n) command_table
             @ [TreeDataProviderRegistration ''syncSettingsCommands''],
           (check_version e st)
             \<lparr>settings_singleton := Some s,
              commands := commands (check_version e st) @ command_table,
              treeDataProviders := treeDataProviders (check_version e st)
                 @ [(''syncSettingsCommands'', getChildren)]\<rparr>))"
  by (simp add: activate_setup_def Let_def Settings_load_def register_commands_eq
      registerTreeDataProvider_def split: sum.splits)

text \<open>The version check touches the global state, the keys for sync and the messages only.\<close>

lemma check_version_frame:
  "settings_singleton (check_version e st) = settings_singleton st"
  "commands (check_version e st) = commands st"
  "treeDataProviders (check_version e st) = treeDataProviders st"
  "watched (check_version e st) = watched st"
  "changeHandler (check_version e st) = changeHandler st"
  "fileChangesDelayer (check_version e st) = fileChangesDelayer st"
  "cronSetups (check_version e st) = cronSetups st"
  "configListener (check_version e st) = configListener st"
  "subscriptions (check_version e st) = subscriptions st"
  "reloads (check_version e st) = reloads st"
  "errorNotifications (check_version e st) = errorNotifications st"
  "unhandledRejections (check_version e st) = unhandledRejections st"
  by (simp_all add: check_version_def Let_def showWhatsNewMessage_def split: option.splits)

text \<open>The three ways \<open>activate\<close> can end: rejected by the load, rejected by the crons, completed.\<close>

lemma activate_load_failed:
  "settings_storage e = Inl err \<Longrightarrow> activate e st = (Some err, check_version e st)"
  by (simp add: activate_def activate_setup_eq)

lemma activate_crons_failed:
  "settings_storage e = Inr s \<Longrightarrow> crons_result e = Some err \<Longrightarrow>
   activate e st =
     (Some err,
      (check_version e st)
        \<lparr>settings_singleton := Some s,
         commands := commands st @ command_table,
         treeDataProviders := treeDataProviders st @ [(''syncSettingsCommands'', getChildren)],
         fileChangesDelayer := \<lparr>defaultDelay = 200, timeout = None\<rparr>,
         watched := watched st @ [(settingsUri s, ''settings.yml'')],
         changeHandler := True,
         cronSetups := Suc (cronSetups st)\<rparr>)"
  by (simp add: activate_def activate_setup_eq Settings_get_def setupCrons_def check_version_frame)

lemma activate_completed:
  "settings_storage e = Inr s \<Longrightarrow> crons_result e = None \<Longrightarrow>
   activate e st =
     (None,
      (check_version e st)
        \<lparr>settings_singleton := Some s,
         commands := commands st @ command_table,
         treeDataProviders := treeDataProviders st @ [(''syncSettingsCommands'', getChildren)],
         fileChangesDelayer := \<lparr>defaultDelay = 200, timeout = None\<rparr>,
         watched := watched st @ [(settingsUri s, ''settings.yml'')],
         changeHandler := True,
         cronSetups := Suc (cronSetups st),
         configListener := True,
         subscriptions := subscriptions st
           @ map (\<lambda>(n, h). CommandRegistration n) command_table
           @ [TreeDataProviderRegistration ''syncSettingsCommands'']\<rparr>)"
  by (simp add: activate_def activate_setup_eq Settings_get_def setupCrons_def check_version_frame)

lemma activate_ok_iff:
  "fst (activate e st) = None \<longleftrightarrow> (\<exists>s. settings_storage e = Inr s) \<and> crons_result e = None"
  by (cases "settings_storage e"; cases "crons_result e")
     (simp_all add: activate_load_failed activate_crons_failed activate_completed)

lemma activate_shown: "shown (snd (activate e st)) = shown (check_version e st)"
  by (cases "settings_storage e"; cases "crons_result e")
     (simp_all add: activate_load_failed activate_crons_failed activate_completed)

lemma activate_globalState: "globalState (snd (activate e st)) = globalState (check_version e st)"
  by (cases "settings_storage e"; cases "crons_result e")
     (simp_all add: activate_load_failed activate_crons_failed activate_completed)

lemma activate_commands:
  "commands (snd (activate e st)) =
     commands st @ (case settings_storage e of Inl err \<Rightarrow> [] | Inr s \<Rightarrow> command_table)"
  by (cases "settings_storage e"; cases "crons_result e")
     (simp_all add: activate_load_failed activate_crons_failed activate_completed check_version_frame)

lemma activate_listener: "fst (activate e st) = None \<Longrightarrow> configListener (snd (activate e st))"
  by (cases "settings_storage e"; cases "crons_result e")
     (simp_all add: activate_load_failed activate_crons_failed activate_completed)

section \<open>The what's-new message\<close>

text \<open>
  With a stored previous version that differs from the current one, the message is
  shown exactly when the comparisons of lines 127 to 139 say so; they are comparisons
  of strings.
\<close>

lemma check_version_shown:
  "globalState st VERSION_KEY = Some prev \<Longrightarrow> prev \<noteq> pkg_version e \<Longrightarrow>
   shown (check_version e st) =
     (if (if config_notification e = Some ''major'' then
            js_gt (major_of (pkg_version e)) (major_of prev)
          else if config_notification e = Some ''minor'' then
            js_gt (major_of (pkg_version e)) (major_of prev)
            \<or> (major_of (pkg_version e) = major_of prev
                \<and> js_gt (minor_of (pkg_version e)) (minor_of prev))
          else config_notification e \<noteq> Some ''none'')
      then shown st @ [WhatsNew (pkg_version e)] else shown st)"
  by (auto simp: check_version_def Let_def showWhatsNewMessage_def)

text \<open>
  Claim C10. On the first activation, when the global state holds no version, no
  what's-new message is shown whatever the notification option is, and the current
  version is written to the global state.
\<close>

theorem first_activation_silent:
  "globalState st VERSION_KEY = None \<Longrightarrow>
     shown (snd (activate (e\<lparr>config_notification := n\<rparr>) st)) = shown st
     \<and> globalState (snd (activate (e\<lparr>config_notification := n\<rparr>) st)) VERSION_KEY
         = Some (pkg_version e)"
  by (simp add: activate_shown activate_globalState check_version_def Let_def)

theorem first_activation_silent_witness:
  "globalState fresh VERSION_KEY = None
   \<and> shown (snd (activate (env_example\<lparr>config_notification := Some ''all''\<rparr>) fresh)) = []
   \<and> globalState (snd (activate (env_example\<lparr>config_notification := Some ''all''\<rparr>) fresh))
        VERSION_KEY = Some ''0.10.0''"
  using first_activation_silent [where st = fresh and e = env_example and n = "Some ''all''"]
  by (simp add: fresh_def env_example_def)

text \<open>
  Claim C2. With a stored previous version that differs from the current one, the
  message is due according to the notification option: never for \<open>none\<close>, for
  \<open>major\<close> only if the major component increased, for \<open>minor\<close> only if the major
  component increased or is equal and the minor component increased, always otherwise.
  The code departs from this on components that are not of the same length: from
  0.9.0 to 0.10.0 under \<open>minor\<close> the message is due and is not shown, and from 10.0.0
  back to 9.0.0 under \<open>major\<close> it is not due and is shown.
\<close>

theorem whats_new_numeric_divergence:
  "whats_new_expected ''0.9.0'' ''0.10.0'' (Some ''minor'')
   \<and> shown (snd (activate (e\<lparr>pkg_version := ''0.10.0'', config_notification := Some ''minor''\<rparr>)
        (st\<lparr>globalState := (globalState st)(VERSION_KEY \<mapsto> ''0.9.0'')\<rparr>))) = shown st
   \<and> \<not> whats_new_expected ''10.0.0'' ''9.0.0'' (Some ''major'')
   \<and> shown (snd (activate (e\<lparr>pkg_version := ''9.0.0'', config_notification := Some ''major''\<rparr>)
        (st\<lparr>globalState := (globalState st)(VERSION_KEY \<mapsto> ''10.0.0'')\<rparr>)))
       = shown st @ [WhatsNew ''9.0.0'']"
  by (simp add: activate_shown check_version_shown whats_new_expected_def increased_def
      component_number_def digit_of_def major_of_def minor_of_def)

theorem whats_new_numeric_divergence_witness:
  "shown (snd (activate env_example
        (fresh\<lparr>globalState := (globalState fresh)(VERSION_KEY \<mapsto> ''0.9.0'')\<rparr>))) = []
   \<and> shown (snd (activate (env_example\<lparr>pkg_version := ''9.0.0'',
                                config_notification := Some ''major''\<rparr>)
        (fresh\<lparr>globalState := (globalState fresh)(VERSION_KEY \<mapsto> ''10.0.0'')\<rparr>)))
       = [WhatsNew ''9.0.0'']"
  using whats_new_numeric_divergence [of env_example fresh]
  by (simp add: env_example_def fresh_def)

text \<open>
  Claim C9. The checks for \<open>major\<close> and \<open>minor\<close> compare the dotted components as
  strings, not as numbers: under \<open>major\<close> the message is shown exactly when the first
  component of the current version is greater than that of the previous one as a
  string, and under \<open>minor\<close> likewise with the second component on equal first
  components. So from 9.0.0 to 10.0.0 the major version increased as a number, the
  string 10 is not greater than the string 9, and under \<open>major\<close> no message is shown.
\<close>

theorem version_checks_compare_strings:
  assumes "globalState st VERSION_KEY = Some prev" and "pkg_version e = cur" and "prev \<noteq> cur"
  shows "(config_notification e = Some ''major'' \<longrightarrow>
            shown (snd (activate e st)) =
              (if js_gt (major_of cur) (major_of prev) then shown st @ [WhatsNew cur]
               else shown st))
     \<and> (config_notification e = Some ''minor'' \<longrightarrow>
            shown (snd (activate e st)) =
              (if js_gt (major_of cur) (major_of prev)
                  \<or> (major_of cur = major_of prev \<and> js_gt (minor_of cur) (minor_of prev))
               then shown st @ [WhatsNew cur] else shown st))
     \<and> increased (major_of ''10.0.0'') (major_of ''9.0.0'')
     \<and> major_of ''10.0.0'' = Some ''10'' \<and> major_of ''9.0.0'' = Some ''9''
     \<and> \<not> js_gt (Some ''10'') (Some ''9'')
     \<and> (prev = ''9.0.0'' \<and> cur = ''10.0.0'' \<and> config_notification e = Some ''major'' \<longrightarrow>
            shown (snd (activate e st)) = shown st)"
proof -
  have general: "shown (snd (activate e st)) =
     (if (if config_notification e = Some ''major'' then
            js_gt (major_of cur) (major_of prev)
          else if config_notification e = Some ''minor'' then
            js_gt (major_of cur) (major_of prev)
            \<or> (major_of cur = major_of prev \<and> js_gt (minor_of cur) (minor_of prev))
          else config_notification e \<noteq> Some ''none'')
      then shown st @ [WhatsNew cur] else shown st)"
    using assms check_version_shown [of st prev e] by (simp add: activate_shown)
  have numbers: "increased (major_of ''10.0.0'') (major_of ''9.0.0'')"
    by (simp add: increased_def component_number_def digit_of_def major_of_def)
  have strings: "major_of ''10.0.0'' = Some ''10''" "major_of ''9.0.0'' = Some ''9''"
    "\<not> js_gt (Some ''10'') (Some ''9'')"
    by (simp_all add: major_of_def)
  show ?thesis
    using numbers strings by (auto simp: general)
qed

theorem version_checks_compare_strings_witness:
  "globalState (fresh\<lparr>globalState := (globalState fresh)(VERSION_KEY \<mapsto> ''9.0.0'')\<rparr>) VERSION_KEY
     = Some ''9.0.0''
   \<and> increased (major_of ''10.0.0'') (major_of ''9.0.0'')
   \<and> shown (snd (activate (env_example\<lparr>pkg_version := ''10.0.0'',
                                config_notification := Some ''major''\<rparr>)
        (fresh\<lparr>globalState := (globalState fresh)(VERSION_KEY \<mapsto> ''9.0.0'')\<rparr>))) = []"
  using version_checks_compare_strings
    [of "fresh\<lparr>globalState := (globalState fresh)(VERSION_KEY \<mapsto> ''9.0.0'')\<rparr>" "''9.0.0''"
        "env_example\<lparr>pkg_version := ''10.0.0'', config_notification := Some ''major''\<rparr>"
        "''10.0.0''"]
  by (simp add: env_example_def fresh_def major_of_def increased_def component_number_def
      digit_of_def)

section \<open>The registered commands\<close>

lemma command_table_names:
  "map fst command_table = map (\<lambda>h. ''syncSettings.'' @ handler_name h) (map snd command_table)"
  by (simp add: command_table_def)

lemma command_table_handlers: "set (map snd command_table) = UNIV"
proof -
  have "h \<in> set (map snd command_table)" for h
    by (cases h) (simp_all add: command_table_def)
  then show ?thesis by blast
qed

text \<open>
  Claim C3. \<open>activate\<close> registers exactly the thirteen commands createProfile,
  deleteProfile, download, upload, review, reset, switchProfile, listMissingExtensions,
  viewDifferences, openProfileDirectory, openProfileSettings, openRepositoryDirectory
  and openSettings, each under the prefix \<open>syncSettings.\<close> and each bound to the
  handler of its own name, one name per handler and one handler per name, and no other
  command. The registrations follow \<open>await Settings.load(context)\<close>, so they are made in
  every run in which the load completes, and in no other. The commands view offers
  the same thirteen identifiers.
\<close>

theorem activate_registers_thirteen_commands:
  "commands (snd (activate e st)) =
     commands st @ (case settings_storage e of Inl err \<Rightarrow> [] | Inr s \<Rightarrow> command_table)
   \<and> length command_table = 13
   \<and> set (map fst command_table) = set (map ((@) ''syncSettings.'') command_names)
   \<and> map fst command_table = map (\<lambda>h. ''syncSettings.'' @ handler_name h) (map snd command_table)
   \<and> distinct (map fst command_table)
   \<and> distinct (map snd command_table)
   \<and> set (map snd command_table) = UNIV
   \<and> map command getChildren = map fst command_table"
proof -
  have 1: "length command_table = 13" by (simp add: command_table_def)
  have 2: "set (map fst command_table) = set (map ((@) ''syncSettings.'') command_names)"
  proof (rule equalityI)
    show "set (map fst command_table) \<subseteq> set (map ((@) ''syncSettings.'') command_names)"
      by (simp add: command_table_def command_names_def)
    show "set (map ((@) ''syncSettings.'') command_names) \<subseteq> set (map fst command_table)"
      by (simp add: command_table_def command_names_def)
  qed
  have 3: "distinct (map fst command_table)" by (simp add: command_table_def)
  have 4: "distinct (map snd command_table)" by (simp add: command_table_def)
  have 5: "map command getChildren = map fst command_table"
    by (simp add: getChildren_def provider_commands_def item_def command_table_def)
  show ?thesis
    using 1 2 3 4 5 activate_commands command_table_names command_table_handlers by blast
qed

theorem activate_registers_thirteen_commands_witness:
  "map fst (commands (snd (activate env_example fresh)))
     = map (\<lambda>h. ''syncSettings.'' @ handler_name h)
         [createProfile, deleteProfile, download, listMissingExtensions, openProfileDirectory,
          openProfileSettings, openRepositoryDirectory, openSettings, reset, review,
          switchProfile, upload, viewDifferences]
   \<and> length (commands (snd (activate env_example fresh))) = 13"
  using activate_registers_thirteen_commands [of env_example fresh]
  by (simp add: env_example_def fresh_def command_table_def)

section \<open>The settings singleton\<close>

text \<open>
  Claim C4. In every execution of \<open>activate\<close>, \<open>Settings.load(context)\<close> completes
  before \<open>Settings.get()\<close> is called, so \<open>get()\<close> cannot fail with \<open>NotLoadedError\<close>
  during activation: whatever the state before, either the load fails and \<open>activate\<close>
  is rejected with its error at line 142, before the call of \<open>get()\<close>, or the state
  that reaches line 168 holds the loaded settings and \<open>get()\<close> returns them.
\<close>

theorem load_precedes_get:
  "(case settings_storage e of
      Inl err \<Rightarrow> activate_setup e st = (Some err, [], check_version e st)
                 \<and> activate e st = (Some err, check_version e st)
    | Inr s \<Rightarrow> fst (activate_setup e st) = None
               \<and> Settings_get (snd (snd (activate_setup e st))) = Inr s)"
  by (simp add: activate_setup_eq activate_load_failed Settings_get_def split: sum.splits)

theorem load_precedes_get_witness:
  "settings_singleton fresh = None
   \<and> Settings_get fresh = Inl NotLoadedError
   \<and> Settings_get (snd (snd (activate_setup env_example fresh)))
       = Inr \<lparr>settingsUri = ''/home/user/repository/settings.yml''\<rparr>
   \<and> fst (activate env_example fresh) = None"
  using load_precedes_get [of env_example fresh]
  by (simp add: env_example_def fresh_def Settings_get_def activate_completed)

section \<open>The scheduler\<close>

text \<open>
  Claim C6 says that when \<open>setupCrons()\<close> fails during activation the error is logged
  and activation otherwise completes, the configuration-change listener included.
  Line 183 awaits \<open>setupCrons()\<close> outside any \<open>try\<close>: with a failing \<open>setupCrons()\<close>
  the promise of \<open>activate\<close> is rejected, no listener is installed, and a later change
  of \<open>syncSettings.crons\<close> does not run \<open>setupCrons()\<close> again.
\<close>

theorem setupCrons_failure_counterexample:
  "fst (activate env_crons_fail fresh) = Some InvalidScheduleError
   \<and> \<not> configListener (snd (activate env_crons_fail fresh))
   \<and> subscriptions (snd (activate env_crons_fail fresh)) = []
   \<and> cronSetups (snd (activate env_crons_fail fresh)) = 1
   \<and> cronSetups (configuration_changed env_example ((=) ''syncSettings.crons'')
        (snd (activate env_crons_fail fresh))) = 1"
  by (simp add: activate_crons_failed env_crons_fail_def env_example_def fresh_def
      check_version_frame configuration_changed_def)

lemma configuration_changes_without_listener:
  "\<not> configListener st \<Longrightarrow> configuration_changes e evs st = st"
  by (induction evs) (simp_all add: configuration_changed_def)

text \<open>
  Claim C6, amended. When \<open>setupCrons()\<close> fails during activation, \<open>activate\<close> is
  rejected with that error at line 183: the thirteen commands, the commands view and
  the watcher with its handler, set up before, are in place, the configuration-change
  listener is not installed, so that, where none was installed before, no later
  configuration change runs \<open>setupCrons()\<close> again, and the disposables are not pushed
  to \<open>context.subscriptions\<close>.
\<close>

theorem setupCrons_failure_rejects_activate:
  "settings_storage e = Inr s \<Longrightarrow> crons_result e = Some err \<Longrightarrow>
     fst (activate e st) = Some err
     \<and> commands (snd (activate e st)) = commands st @ command_table
     \<and> treeDataProviders (snd (activate e st))
         = treeDataProviders st @ [(''syncSettingsCommands'', getChildren)]
     \<and> watched (snd (activate e st)) = watched st @ [(settingsUri s, ''settings.yml'')]
     \<and> changeHandler (snd (activate e st))
     \<and> configListener (snd (activate e st)) = configListener st
     \<and> subscriptions (snd (activate e st)) = subscriptions st
     \<and> cronSetups (snd (activate e st)) = Suc (cronSetups st)
     \<and> (\<not> configListener st \<longrightarrow>
          configuration_changes e1 evs (snd (activate e st)) = snd (activate e st)
          \<and> cronSetups (configuration_changes e1 evs (snd (activate e st))) = Suc (cronSetups st))"
proof -
  assume s: "settings_storage e = Inr s" and c: "crons_result e = Some err"
  have l: "configListener (snd (activate e st)) = configListener st"
    by (simp add: activate_crons_failed [OF s c] check_version_frame)
  have n: "cronSetups (snd (activate e st)) = Suc (cronSetups st)"
    by (simp add: activate_crons_failed [OF s c] check_version_frame)
  have later: "\<not> configListener st \<Longrightarrow>
      configuration_changes e1 evs (snd (activate e st)) = snd (activate e st)"
    using l by (simp add: configuration_changes_without_listener)
  show ?thesis
    using l n later by (simp add: activate_crons_failed [OF s c] check_version_frame)
qed

theorem setupCrons_failure_rejects_activate_witness:
  "fst (activate env_crons_fail fresh) = Some InvalidScheduleError
   \<and> commands (snd (activate env_crons_fail fresh)) = command_table
   \<and> treeDataProviders (snd (activate env_crons_fail fresh))
       = [(''syncSettingsCommands'', getChildren)]
   \<and> watched (snd (activate env_crons_fail fresh))
       = [(''/home/user/repository/settings.yml'', ''settings.yml'')]
   \<and> changeHandler (snd (activate env_crons_fail fresh))
   \<and> configListener (snd (activate env_crons_fail fresh)) = False
   \<and> subscriptions (snd (activate env_crons_fail fresh)) = []
   \<and> cronSetups (configuration_changes env_example
        [(=) ''syncSettings.crons'', (=) ''syncSettings.notification'', (=) ''syncSettings.crons'']
        (snd (activate env_crons_fail fresh))) = 1"
  using setupCrons_failure_rejects_activate
    [of env_crons_fail "\<lparr>settingsUri = ''/home/user/repository/settings.yml''\<rparr>"
        InvalidScheduleError fresh env_example
        "[(=) ''syncSettings.crons'', (=) ''syncSettings.notification'', (=) ''syncSettings.crons'']"]
  by (simp add: env_crons_fail_def env_example_def fresh_def)

lemma configuration_changed_listener:
  "configListener (configuration_changed e ev st) = configListener st"
  by (simp add: configuration_changed_def onDidChangeConfiguration_def setupCrons_def
      split: option.splits)

lemma configuration_changes_listener:
  "configListener (configuration_changes e evs st) = configListener st"
  by (induction evs arbitrary: st) (simp_all add: configuration_changed_listener)

text \<open>
  Claim C7. For every configuration-change event after activation, \<open>setupCrons()\<close> is
  invoked again if and only if the event affects \<open>syncSettings.crons\<close>: after a
  completed activation and any number of earlier configuration changes, an event runs
  \<open>setupCrons()\<close> once when it affects that section and not at all when it does not.
\<close>

theorem setupCrons_rerun_iff_crons_affected:
  assumes "fst (activate e0 st0) = None"
    and "st = configuration_changes e1 evs (snd (activate e0 st0))"
  shows "(cronSetups (configuration_changed e ev st) = Suc (cronSetups st))
           = ev ''syncSettings.crons''
     \<and> (cronSetups (configuration_changed e ev st) = cronSetups st)
           = (\<not> ev ''syncSettings.crons'')"
proof -
  have "configListener st"
    using assms by (simp add: configuration_changes_listener activate_listener)
  then show ?thesis
    by (simp add: configuration_changed_def onDidChangeConfiguration_def setupCrons_def
        split: option.splits)
qed

theorem setupCrons_rerun_iff_crons_affected_witness:
  "fst (activate env_example fresh) = None
   \<and> cronSetups (snd (activate env_example fresh)) = 1
   \<and> cronSetups (configuration_changed env_example ((=) ''syncSettings.crons'')
        (snd (activate env_example fresh))) = 2
   \<and> cronSetups (configuration_changed env_example ((=) ''syncSettings.notification'')
        (snd (activate env_example fresh))) = 1"
  using setupCrons_rerun_iff_crons_affected
      [of env_example fresh "snd (activate env_example fresh)" env_example "[]" env_example
          "(=) ''syncSettings.crons''"]
    setupCrons_rerun_iff_crons_affected
      [of env_example fresh "snd (activate env_example fresh)" env_example "[]" env_example
          "(=) ''syncSettings.notification''"]
  by (simp add: activate_completed env_example_def fresh_def check_version_frame)

section \<open>The file watcher\<close>

lemma reload_task_eq:
  "reload_task e st =
     (None,
      case reload_result e (reloads st) of
        None \<Rightarrow> st\<lparr>reloads := Suc (reloads st)\<rparr>
      | Some err \<Rightarrow> st\<lparr>reloads := Suc (reloads st),
                        errorNotifications := errorNotifications st @ [err]\<rparr>)"
  by (simp add: reload_task_def RepositoryFactory_reload_def Logger_error_def split: option.splits)

lemma expire_unhandled: "unhandledRejections (expire e now st) = unhandledRejections st"
  by (simp add: expire_def reload_task_eq split: option.splits)

lemma file_changed_unhandled: "unhandledRejections (file_changed e now st) = unhandledRejections st"
  by (simp add: file_changed_def Let_def onDidChange_def expire_unhandled)

lemma file_changes_unhandled: "unhandledRejections (file_changes e ts st) = unhandledRejections st"
  by (induction ts arbitrary: st) (simp_all add: file_changed_unhandled)

text \<open>
  Claim C5. Every error thrown by \<open>RepositoryFactory.reload()\<close> during a reload
  triggered by the watcher is caught, surfaced to the user as a visible error
  notification, and never leaves the handler: the task of the delayer ends without an
  exception, the error is the one new notification, and neither the expiry of the
  timer nor any sequence of change events leaves an unhandled rejection.
\<close>

theorem reload_error_caught_and_notified:
  assumes "timeout (fileChangesDelayer st) = Some due" and "due \<le> now"
    and "reload_result e (reloads st) = Some err"
  shows "fst (reload_task e st) = None
     \<and> errorNotifications (snd (reload_task e st)) = errorNotifications st @ [err]
     \<and> reloads (expire e now st) = Suc (reloads st)
     \<and> errorNotifications (expire e now st) = errorNotifications st @ [err]
     \<and> unhandledRejections (expire e now st) = unhandledRejections st
     \<and> unhandledRejections (file_changes e ts st) = unhandledRejections st"
  using assms
  by (simp add: reload_task_eq expire_def file_changes_unhandled)

theorem reload_error_caught_and_notified_witness:
  "timeout (fileChangesDelayer (file_changes env_reload_fails [0] (snd (activate env_example fresh))))
     = Some 200
   \<and> errorNotifications (expire env_reload_fails 200
        (file_changes env_reload_fails [0] (snd (activate env_example fresh)))) = [NetworkError]
   \<and> unhandledRejections (expire env_reload_fails 200
        (file_changes env_reload_fails [0] (snd (activate env_example fresh)))) = []"
  using reload_error_caught_and_notified
    [of "file_changes env_reload_fails [0] (snd (activate env_example fresh))" 200 200
        env_reload_fails NetworkError "[]"]
  by (simp add: activate_completed env_example_def fresh_def check_version_frame
      env_reload_fails_def reload_fails_def file_changed_def expire_def onDidChange_def
      trigger_def)

lemma sorted_le_last: "sorted ts \<Longrightarrow> u \<in> set ts \<Longrightarrow> u \<le> last (ts :: nat list)"
  by (induction ts) auto

text \<open>
  A burst that stays inside one delay window never meets a due timer: every event
  re-arms the timer, and after the burst it is due one delay after the last event.
\<close>

lemma burst_keeps_timer:
  "changeHandler st \<Longrightarrow> defaultDelay (fileChangesDelayer st) = 200 \<Longrightarrow>
   (case timeout (fileChangesDelayer st) of None \<Rightarrow> True | Some due \<Rightarrow> \<forall>t\<in>set ts. t < due) \<Longrightarrow>
   sorted ts \<Longrightarrow> ts \<noteq> [] \<Longrightarrow> last ts < hd ts + 200 \<Longrightarrow>
   file_changes e ts st =
     st\<lparr>fileChangesDelayer := \<lparr>defaultDelay = 200, timeout = Some (last ts + 200)\<rparr>\<rparr>"
proof (induction ts arbitrary: st)
  case Nil
  then show ?case by simp
next
  case (Cons t ts)
  let ?st' = "st\<lparr>fileChangesDelayer := \<lparr>defaultDelay = 200, timeout = Some (t + 200)\<rparr>\<rparr>"
  have step: "file_changed e t st = ?st'"
    using Cons.prems(1,2,3)
    by (cases "fileChangesDelayer st")
       (auto simp: file_changed_def Let_def expire_def onDidChange_def trigger_def
          split: option.splits)
  show ?case
  proof (cases "ts = []")
    case True
    then show ?thesis using step by simp
  next
    case False
    have le: "\<forall>u\<in>set ts. t \<le> u" using Cons.prems(4) by simp
    have lt: "last ts < t + 200" using Cons.prems(6) False by simp
    have bound: "\<forall>u\<in>set ts. u < t + 200"
    proof
      fix u assume "u \<in> set ts"
      then have "u \<le> last ts"
        using Cons.prems(4) by (simp add: sorted_le_last)
      then show "u < t + 200" using lt by simp
    qed
    have "hd ts \<in> set ts" using False by simp
    then have "t \<le> hd ts" using le by blast
    then have win: "last ts < hd ts + 200" using lt by simp
    have "file_changes e ts ?st' =
            ?st'\<lparr>fileChangesDelayer := \<lparr>defaultDelay = 200, timeout = Some (last ts + 200)\<rparr>\<rparr>"
      using Cons.IH [of ?st'] Cons.prems(1,4) False bound win by simp
    then show ?thesis using step False by simp
  qed
qed

text \<open>
  Claim C1. For every burst of change events on the watched \<open>settings.yml\<close> inside
  the delay window of 200 ms the watcher invokes \<open>RepositoryFactory.reload()\<close> exactly
  once: after a completed activation, events at the times \<open>ts\<close> (in order, the last
  less than 200 ms after the first) cause no reload while they arrive nor before the
  delay has passed since the last of them, one reload when it has passed, and no
  further reload later.
\<close>

theorem burst_gives_one_reload:
  assumes "fst (activate e0 st0) = None" and "st = snd (activate e0 st0)"
    and "ts \<noteq> []" and "sorted ts" and "last ts < hd ts + 200"
  shows "reloads (file_changes e ts st) = reloads st
     \<and> (\<forall>now. now < last ts + 200 \<longrightarrow> reloads (expire e now (file_changes e ts st)) = reloads st)
     \<and> (\<forall>now. last ts + 200 \<le> now \<longrightarrow>
          reloads (expire e now (file_changes e ts st)) = Suc (reloads st)
          \<and> reloads (expire e (now + k) (expire e now (file_changes e ts st))) = Suc (reloads st))"
proof -
  obtain s where s: "settings_storage e0 = Inr s" and c: "crons_result e0 = None"
    using assms(1) activate_ok_iff by blast
  have h: "changeHandler st" and d: "fileChangesDelayer st = \<lparr>defaultDelay = 200, timeout = None\<rparr>"
    using assms(2) by (simp_all add: activate_completed [OF s c])
  have eq: "file_changes e ts st =
      st\<lparr>fileChangesDelayer := \<lparr>defaultDelay = 200, timeout = Some (last ts + 200)\<rparr>\<rparr>"
    using burst_keeps_timer [of st ts e] h d assms(3,4,5) by simp
  show ?thesis
    by (simp add: eq expire_def reload_task_eq split: option.splits)
qed

theorem burst_gives_one_reload_witness:
  "fst (activate env_example fresh) = None
   \<and> sorted [0, 10, 100, 199 :: nat] \<and> last [0, 10, 100, 199 :: nat] < hd [0, 10, 100, 199] + 200
   \<and> reloads (file_changes env_example [0, 10, 100, 199] (snd (activate env_example fresh))) = 0
   \<and> reloads (expire env_example 398
        (file_changes env_example [0, 10, 100, 199] (snd (activate env_example fresh)))) = 0
   \<and> reloads (expire env_example 399
        (file_changes env_example [0, 10, 100, 199] (snd (activate env_example fresh)))) = 1"
  using burst_gives_one_reload
    [of env_example fresh "snd (activate env_example fresh)" "[0, 10, 100, 199]" env_example 0]
  by (simp add: activate_completed env_example_def fresh_def check_version_frame)

section \<open>The round trip of the diff engine\<close>

text \<open>
  The records of a comparison over distinct paths apply to any entries that agree
  with the base on those paths, and change those paths only.
\<close>

lemma apply_changes_at:
  "distinct ps \<Longrightarrow> \<forall>p\<in>set ps. fmlookup m p = fmlookup b p \<Longrightarrow>
   \<exists>m'. apply_changes
           (List.map_filter (\<lambda>p. change_at cmp p (fmlookup b p) (fmlookup t p)) ps) m = Some m'
       \<and> (\<forall>p. fmlookup m' p =
             (if p \<in> set ps then merged cmp (fmlookup b p) (fmlookup t p) else fmlookup m p))"
proof (induction ps arbitrary: m)
  case Nil
  then show ?case by simp
next
  case (Cons q ps)
  let ?cs = "List.map_filter (\<lambda>p. change_at cmp p (fmlookup b p) (fmlookup t p)) ps"
  have mq: "fmlookup m q = fmlookup b q" using Cons.prems(2) by simp
  have fresh: "q \<notin> set ps" and dist: "distinct ps" using Cons.prems(1) by simp_all
  have step: "\<exists>m1. (case change_at cmp q (fmlookup b q) (fmlookup t q) of
                      None \<Rightarrow> Some m | Some c \<Rightarrow> apply_change c m) = Some m1
        \<and> (\<forall>p. fmlookup m1 p =
              (if p = q then merged cmp (fmlookup b q) (fmlookup t q) else fmlookup m p))"
    using mq
    by (cases "fmlookup b q"; cases "fmlookup t q") (auto simp: apply_change_def)
  then obtain m1 where m1: "(case change_at cmp q (fmlookup b q) (fmlookup t q) of
                      None \<Rightarrow> Some m | Some c \<Rightarrow> apply_change c m) = Some m1"
    and l1: "\<forall>p. fmlookup m1 p =
              (if p = q then merged cmp (fmlookup b q) (fmlookup t q) else fmlookup m p)"
    by blast
  have "\<forall>p\<in>set ps. fmlookup m1 p = fmlookup b p"
    using l1 fresh Cons.prems(2) by auto
  from Cons.IH [OF dist this] obtain m' where
    m': "apply_changes ?cs m1 = Some m'"
    and l': "\<forall>p. fmlookup m' p =
              (if p \<in> set ps then merged cmp (fmlookup b p) (fmlookup t p) else fmlookup m1 p)"
    by blast
  have run: "apply_changes
       (List.map_filter (\<lambda>p. change_at cmp p (fmlookup b p) (fmlookup t p)) (q # ps)) m = Some m'"
    using m1 m' by (cases "change_at cmp q (fmlookup b q) (fmlookup t q)") simp_all
  have "\<forall>p. fmlookup m' p =
      (if p \<in> set (q # ps) then merged cmp (fmlookup b p) (fmlookup t p) else fmlookup m p)"
    using l' l1 fresh by auto
  then show ?case using run by blast
qed

lemma apply_diff_entries:
  "\<exists>m'. apply_changes (diff_entries cmp b t) b = Some m'
       \<and> (\<forall>p. fmlookup m' p = merged cmp (fmlookup b p) (fmlookup t p))"
proof -
  let ?ps = "sorted_list_of_fset (fmdom b |\<union>| fmdom t)"
  have "distinct ?ps" by (simp add: sorted_list_of_fset.rep_eq)
  from apply_changes_at [OF this, of b b cmp t] obtain m' where
    m': "apply_changes (diff_entries cmp b t) b = Some m'"
    and l: "\<forall>p. fmlookup m' p =
              (if p \<in> set ?ps then merged cmp (fmlookup b p) (fmlookup t p) else fmlookup b p)"
    by (auto simp: diff_entries_def)
  have "fmlookup m' p = merged cmp (fmlookup b p) (fmlookup t p)" for p
  proof (cases "p \<in> set ?ps")
    case True
    then show ?thesis using l by simp
  next
    case False
    then have "fmlookup b p = None" "fmlookup t p = None"
      by (auto simp: fmlookup_dom_iff)
    then show ?thesis using l False by simp
  qed
  then show ?thesis using m' by blast
qed

lemma merged_True: "merged True b t = t"
  by (cases b; cases t) auto

lemma merged_dom: "(merged cmp b t = None) = (t = None)"
  by (cases b; cases t) auto

text \<open>
  The patch of a comparison always applies: the result is the base with the documents
  of the target and with the merged extension list.
\<close>

lemma apply_patch_diff:
  "\<exists>xs. apply_patch B (diff track B T) = B\<lparr>documents := documents T, extension_list := xs\<rparr>
       \<and> (\<forall>i. fmlookup xs i =
              merged track (fmlookup (extension_list B) i) (fmlookup (extension_list T) i))"
proof -
  obtain ds where
    ds: "apply_changes (diff_entries True (documents B) (documents T)) (documents B) = Some ds"
    and dl: "\<forall>p. fmlookup ds p = merged True (fmlookup (documents B) p) (fmlookup (documents T) p)"
    using apply_diff_entries [of True "documents B" "documents T"] by blast
  obtain xs where xs: "apply_changes (diff_entries track (extension_list B) (extension_list T))
        (extension_list B) = Some xs"
    and xl: "\<forall>p. fmlookup xs p =
        merged track (fmlookup (extension_list B) p) (fmlookup (extension_list T) p)"
    using apply_diff_entries [of track "extension_list B" "extension_list T"] by blast
  have d: "ds = documents T"
    by (rule fmap_ext) (simp add: dl merged_True)
  have "apply_patch B (diff track B T) = B\<lparr>documents := documents T, extension_list := xs\<rparr>"
    by (simp add: apply_patch_def diff_def ds xs d)
  then show ?thesis using xl by blast
qed

text \<open>
  Claim C8 says that for all well-formed snapshots \<open>B\<close> and \<open>T\<close>, applying to \<open>B\<close>
  the patch \<open>diff B T\<close> gives \<open>T\<close>. It fails on two snapshots of the same time that
  differ only in the version of an extension, compared without version tracking, and
  on two captures of the same content at different times: in both cases the patch is
  empty and the base is returned unchanged.
\<close>

theorem round_trip_counterexample:
  "diff False installed_old installed_new = \<lparr>document_changes = [], extension_changes = []\<rparr>
   \<and> apply_patch installed_old (diff False installed_old installed_new) \<noteq> installed_new
   \<and> fmlookup (extension_list (apply_patch installed_old (diff False installed_old installed_new)))
        ''c.d'' = Some ''1.0.0''
   \<and> fmlookup (extension_list installed_new) ''c.d'' = Some ''2.0.0''
   \<and> diff True installed_old captured_later = \<lparr>document_changes = [], extension_changes = []\<rparr>
   \<and> apply_patch installed_old (diff True installed_old captured_later) \<noteq> captured_later
   \<and> captured_at (apply_patch installed_old (diff True installed_old captured_later)) = 1
   \<and> captured_at captured_later = 2"
proof -
  have p1: "diff False installed_old installed_new
      = \<lparr>document_changes = [], extension_changes = []\<rparr>"
    by code_simp
  have p2: "diff True installed_old captured_later
      = \<lparr>document_changes = [], extension_changes = []\<rparr>"
    by code_simp
  obtain xs where r1: "apply_patch installed_old (diff False installed_old installed_new)
        = installed_old\<lparr>documents := documents installed_new, extension_list := xs\<rparr>"
    and l1: "\<forall>i. fmlookup xs i = merged False (fmlookup (extension_list installed_old) i)
        (fmlookup (extension_list installed_new) i)"
    using apply_patch_diff [of installed_old False installed_new] by blast
  have a: "fmlookup (extension_list (apply_patch installed_old
        (diff False installed_old installed_new))) ''c.d'' = Some ''1.0.0''"
    unfolding r1 by (simp add: l1 installed_old_def installed_new_def)
  have b: "fmlookup (extension_list installed_new) ''c.d'' = Some ''2.0.0''"
    by (simp add: installed_new_def)
  have c: "apply_patch installed_old (diff False installed_old installed_new) \<noteq> installed_new"
    using a b by auto
  obtain ys where r2: "apply_patch installed_old (diff True installed_old captured_later)
        = installed_old\<lparr>documents := documents captured_later, extension_list := ys\<rparr>"
    using apply_patch_diff [of installed_old True captured_later] by blast
  have d: "captured_at (apply_patch installed_old (diff True installed_old captured_later)) = 1"
    unfolding r2 by (simp add: installed_old_def)
  have e: "captured_at captured_later = 2"
    by (simp add: captured_later_def)
  have f: "apply_patch installed_old (diff True installed_old captured_later) \<noteq> captured_later"
    using d e by auto
  show ?thesis using p1 p2 a b c d e f by blast
qed

text \<open>
  Claim C8, amended. For all well-formed snapshots \<open>B\<close> and \<open>T\<close>, applying to \<open>B\<close>
  the patch \<open>diff B T\<close> gives the settings documents of \<open>T\<close> and the extension
  identifiers of \<open>T\<close>; with version tracking the extension list is that of \<open>T\<close>, and
  without it an extension of both keeps the version it has in \<open>B\<close>, every other one
  having the version it has in \<open>T\<close>.
\<close>

theorem apply_diff_content:
  "documents (apply_patch B (diff track B T)) = documents T
   \<and> fmdom (extension_list (apply_patch B (diff track B T))) = fmdom (extension_list T)
   \<and> (\<forall>i. fmlookup (extension_list (apply_patch B (diff track B T))) i =
            merged track (fmlookup (extension_list B) i) (fmlookup (extension_list T) i))
   \<and> (track \<longrightarrow> extension_list (apply_patch B (diff track B T)) = extension_list T)"
proof -
  obtain xs where res: "apply_patch B (diff track B T)
        = B\<lparr>documents := documents T, extension_list := xs\<rparr>"
    and xl: "\<forall>i. fmlookup xs i =
        merged track (fmlookup (extension_list B) i) (fmlookup (extension_list T) i)"
    using apply_patch_diff [of B track T] by blast
  have dom: "fmdom xs = fmdom (extension_list T)"
  proof (rule fset_eqI)
    fix i
    have "(fmlookup xs i = None) = (fmlookup (extension_list T) i = None)"
      by (simp add: xl merged_dom)
    then show "(i |\<in>| fmdom xs) = (i |\<in>| fmdom (extension_list T))"
      by (auto simp: fmlookup_dom_iff)
  qed
  have tr: "track \<Longrightarrow> xs = extension_list T"
    by (rule fmap_ext) (simp add: xl merged_True)
  show ?thesis
    unfolding res using dom tr xl by simp
qed

theorem apply_diff_content_witness:
  "diff False base_example target_example =
       \<lparr>document_changes =
          [\<lparr>path = ''font'', kind = added, old_value = None, new_value = Some ''mono''\<rparr>,
           \<lparr>path = ''theme'', kind = modified, old_value = Some ''dark'',
            new_value = Some ''light''\<rparr>],
        extension_changes =
          [\<lparr>path = ''a.b'', kind = removed, old_value = Some ''1.0.0'', new_value = None\<rparr>,
           \<lparr>path = ''e.f'', kind = added, old_value = None, new_value = Some ''1.0.0''\<rparr>]\<rparr>
   \<and> documents (apply_patch base_example (diff False base_example target_example))
     = fmupd ''font'' ''mono'' (fmupd ''theme'' ''light'' fmempty)
   \<and> fmdom (extension_list (apply_patch base_example (diff False base_example target_example)))
     = {|''c.d'', ''e.f''|}
   \<and> fmlookup (extension_list (apply_patch base_example (diff False base_example target_example)))
        ''c.d'' = Some ''1.0.0''
   \<and> extension_list (apply_patch base_example (diff True base_example target_example))
     = fmupd ''c.d'' ''2.0.0'' (fmupd ''e.f'' ''1.0.0'' fmempty)"
proof -
  have patch: "diff False base_example target_example =
       \<lparr>document_changes =
          [\<lparr>path = ''font'', kind = added, old_value = None, new_value = Some ''mono''\<rparr>,
           \<lparr>path = ''theme'', kind = modified, old_value = Some ''dark'',
            new_value = Some ''light''\<rparr>],
        extension_changes =
          [\<lparr>path = ''a.b'', kind = removed, old_value = Some ''1.0.0'', new_value = None\<rparr>,
           \<lparr>path = ''e.f'', kind = added, old_value = None, new_value = Some ''1.0.0''\<rparr>]\<rparr>"
    by code_simp
  have rest: "documents (apply_patch base_example (diff False base_example target_example))
     = fmupd ''font'' ''mono'' (fmupd ''theme'' ''light'' fmempty)
   \<and> fmdom (extension_list (apply_patch base_example (diff False base_example target_example)))
     = {|''c.d'', ''e.f''|}
   \<and> fmlookup (extension_list (apply_patch base_example (diff False base_example target_example)))
        ''c.d'' = Some ''1.0.0''
   \<and> extension_list (apply_patch base_example (diff True base_example target_example))
     = fmupd ''c.d'' ''2.0.0'' (fmupd ''e.f'' ''1.0.0'' fmempty)"
    using apply_diff_content [of base_example False target_example]
      apply_diff_content [of base_example True target_example]
    by (simp add: base_example_def target_example_def)
  show ?thesis using patch rest by blast
qed

end
